theory Spec2Isabelle
  imports Main "HOL-Library.Sublist"
begin

section \<open>Data model of \<^verbatim>\<open>main.ts\<close>\<close>

text \<open>
  The embedding covers \<^verbatim>\<open>TelegramBotAdapter\<close>: the registry, the three listeners installed
  by its constructor, the MIME classifier, the file materializer and the reply formatter.
  What the model takes for granted:
  \<^item> a handler acts on the world outside the adapter, and nothing is registered while a
    chain is running (the loops read \<^verbatim>\<open>items.length\<close> anew in each round, of the very array
    that \<^verbatim>\<open>push\<close> extends), so the list a loop walks over is the list it looked up;
  \<^item> \<^verbatim>\<open>ctx.reply\<close> hands a message to the transport and does not itself throw (the loops
    do not await it);
  \<^item> strings are sequences of \<^typ>\<open>char\<close>; every character the code tests for is ASCII.
\<close>

text \<open>
  \<^verbatim>\<open>type Reply = string | null; type HandlerResult = { processed: boolean; answer: Reply }\<close>.
  A JavaScript string is modelled as a \<^typ>\<open>string\<close>; \<^verbatim>\<open>null\<close> is \<^term>\<open>None\<close>.
\<close>

record handler_result =
  processed :: bool
  answer :: "string option"

text \<open>
  Everything that can be thrown inside one of the \<^verbatim>\<open>try\<close> blocks: the two explicit
  \<^verbatim>\<open>throw TypeError(...)\<close> of the file path, a rejected handler promise, and a failing
  collaborator (\<^verbatim>\<open>ctx.getFile\<close>, \<^verbatim>\<open>fs.mkdirSync\<close>, \<^verbatim>\<open>file.download\<close>).
\<close>

datatype error = TypeError string | HandlerFailure string | TransportFailure string

text \<open>
  Handlers are asynchronous closures of other plugins. A call takes the state of the world
  outside the adapter (type \<open>'w\<close>) to a new one and either returns a result or throws.
  \<^verbatim>\<open>CommandHandler = (processed_before) => ...\<close>,
  \<^verbatim>\<open>TextHandler = (text, processed_before) => ...\<close>,
  \<^verbatim>\<open>FileHandler = (file, processed_before, caption?) => ...\<close>; \<open>'f\<close> stands for \<^verbatim>\<open>TFile\<close>.
\<close>

type_synonym 'w command_handler = "bool \<Rightarrow> 'w \<Rightarrow> (error + handler_result) \<times> 'w"
type_synonym 'w text_handler = "string option \<Rightarrow> bool \<Rightarrow> 'w \<Rightarrow> (error + handler_result) \<times> 'w"
type_synonym ('w, 'f) file_handler =
  "'f \<Rightarrow> bool \<Rightarrow> string option \<Rightarrow> 'w \<Rightarrow> (error + handler_result) \<times> 'w"

text \<open>The registry items \<^verbatim>\<open>{ handler: ..., unit: string }\<close>.\<close>

record 'h entry =
  handler :: 'h
  unit :: string

text \<open>
  A message handed to \<^verbatim>\<open>ctx.reply\<close>: with \<^verbatim>\<open>{ parse_mode: "MarkdownV2" }\<close> or without
  options.
\<close>

datatype outbound = MarkdownV2 string | PlainText string

text \<open>One evaluation of \<^verbatim>\<open>element.handler(...)\<close>: whose it was, the flag it got, how it ended.\<close>

record call =
  callee :: string
  flag_in :: bool
  returned :: "error + handler_result"

text \<open>
  What an event handler acts on: the outside world, the messages passed to
  \<^verbatim>\<open>ctx.reply\<close> so far and the handler invocations made so far (both oldest first).
\<close>

record 'w io =
  world :: 'w
  outbox :: "outbound list"
  invoked :: "call list"

text \<open>The private state of \<^verbatim>\<open>TelegramBotAdapter\<close>; a \<^verbatim>\<open>Map\<close> is a partial function.\<close>

record ('w, 'f) adapter =
  chat_id :: string
  vault_path :: string
  download_path :: string
  command_handlers :: "string \<rightharpoonup> 'w command_handler entry list"
  text_handlers :: "'w text_handler entry list"
  file_handlers :: "string \<rightharpoonup> ('w, 'f) file_handler entry list"

section \<open>Reply formatter\<close>

text \<open>The character class of the regular expression in \<^verbatim>\<open>esc\<close>, in its order.\<close>

definition esc_class :: "char list" where
  "esc_class = [CHR ''_'', CHR ''*'', CHR ''['', CHR '']'', CHR ''('', CHR '')'', CHR ''~'',
     CHR 0x60, CHR ''>'', CHR ''#'', CHR ''+'', CHR ''-'', CHR ''='', CHR ''|'', CHR ''{'',
     CHR ''}'', CHR ''.'', CHR ''!'']"

text \<open>
  \<^verbatim>\<open>text.replace(/[class]/g, repl)\<close> for a one-character class: scan from the left, replace
  each match by the replacement computed from the matched character (\<^verbatim>\<open>$&\<close>), copy the
  rest.
\<close>

fun replace_class :: "char list \<Rightarrow> (char \<Rightarrow> string) \<Rightarrow> string \<Rightarrow> string" where
  "replace_class cls repl [] = []"
| "replace_class cls repl (c # text) =
     (if c \<in> set cls then repl c @ replace_class cls repl text
      else c # replace_class cls repl text)"

text \<open>\<^verbatim>\<open>esc(text) = text.replace(/[_*[\]()~`>#+\-=|{}.!]/g, '\\$&')\<close>.\<close>

definition esc :: "string \<Rightarrow> string" where
  "esc text = replace_class esc_class (\<lambda>m. [CHR 0x5C, m]) text"

text \<open>The template literal \<^verbatim>\<open>`*${esc(element.unit)}:*\n${esc(reply.answer)}`\<close>.\<close>

definition labelled_reply :: "string \<Rightarrow> string \<Rightarrow> string" where
  "labelled_reply owner text = ''*'' @ esc owner @ '':*'' @ [CHR 0x0A] @ esc text"

text \<open>
  The same template literal in the earlier copy of the adapter (the unnamed source file):
  \<^verbatim>\<open>`*${element.unit}:*\n${this.esc(reply.answer)}`\<close>.
\<close>

definition labelled_reply_earlier :: "string \<Rightarrow> string \<Rightarrow> string" where
  "labelled_reply_earlier owner text = ''*'' @ owner @ '':*'' @ [CHR 0x0A] @ esc text"

text \<open>
  The escaping rule in the words of the specification: every character of the punctuation
  set gets one backslash in front of it, every other character is copied.
\<close>

definition esc_spec :: "string \<Rightarrow> string" where
  "esc_spec text =
     concat (map (\<lambda>c. if c \<in> set ''_*[]()~'' \<union> {CHR 0x60} \<union> set ''>#+-=|{}.!''
                       then [CHR 0x5C, c] else [c]) text)"

section \<open>MIME classifier\<close>

text \<open>
  The fields of \<^verbatim>\<open>Message\<close> that \<^verbatim>\<open>getFileMimeType\<close> reads. An absent field is
  \<^term>\<open>None\<close>; a present one is an object or an array, hence truthy.
\<close>

record media =
  mime_type :: "string option"

record message =
  document :: "media option"
  animation :: "media option"
  audio :: "media option"
  photo :: "nat list option"
  video :: "media option"
  voice :: "media option"
  video_note :: "nat option"

definition getFileMimeType :: "message \<Rightarrow> string option" where
  "getFileMimeType msg =
     (if document msg \<noteq> None then mime_type (the (document msg))
      else if animation msg \<noteq> None then mime_type (the (animation msg))
      else if audio msg \<noteq> None then mime_type (the (audio msg))
      else if photo msg \<noteq> None then Some ''image/jpeg''
      else if video msg \<noteq> None then mime_type (the (video msg))
      else if voice msg \<noteq> None then mime_type (the (voice msg))
      else if video_note msg \<noteq> None then Some ''video/mp4''
      else None)"

section \<open>Handler registry\<close>

text \<open>
  \<^verbatim>\<open>addCommandHandler\<close>: \<^verbatim>\<open>push\<close> onto the list of \<^verbatim>\<open>cmd\<close> when the map has the key,
  otherwise \<^verbatim>\<open>set(cmd, [item_to_add])\<close>.
\<close>

definition addCommandHandler ::
  "string \<Rightarrow> 'w command_handler \<Rightarrow> string \<Rightarrow> ('w, 'f) adapter \<Rightarrow> ('w, 'f) adapter" where
  "addCommandHandler cmd h unit_name a =
     (let item_to_add = \<lparr>handler = h, unit = unit_name\<rparr> in
      case command_handlers a cmd of
        Some items \<Rightarrow> a\<lparr>command_handlers := (command_handlers a)(cmd \<mapsto> items @ [item_to_add])\<rparr>
      | None \<Rightarrow> a\<lparr>command_handlers := (command_handlers a)(cmd \<mapsto> [item_to_add])\<rparr>)"

definition addTextHandler ::
  "'w text_handler \<Rightarrow> string \<Rightarrow> ('w, 'f) adapter \<Rightarrow> ('w, 'f) adapter" where
  "addTextHandler h unit_name a =
     a\<lparr>text_handlers := text_handlers a @ [\<lparr>handler = h, unit = unit_name\<rparr>]\<rparr>"

text \<open>
  \<^verbatim>\<open>addFileHandler\<close>: a falsy \<^verbatim>\<open>mime_type\<close> (\<^verbatim>\<open>undefined\<close> or the empty string) becomes
  the key \<^verbatim>\<open>''\<close>.
\<close>

definition addFileHandler ::
  "('w, 'f) file_handler \<Rightarrow> string \<Rightarrow> string option \<Rightarrow> ('w, 'f) adapter \<Rightarrow> ('w, 'f) adapter" where
  "addFileHandler h unit_name mime_type_opt a =
     (let item_to_add = \<lparr>handler = h, unit = unit_name\<rparr>;
          key = (case mime_type_opt of None \<Rightarrow> [] | Some t \<Rightarrow> t) in
      case file_handlers a key of
        Some items \<Rightarrow> a\<lparr>file_handlers := (file_handlers a)(key \<mapsto> items @ [item_to_add])\<rparr>
      | None \<Rightarrow> a\<lparr>file_handlers := (file_handlers a)(key \<mapsto> [item_to_add])\<rparr>)"

section \<open>Dispatch engine\<close>

text \<open>\<^verbatim>\<open>ctx.reply(...)\<close> hands one more message to the transport.\<close>

definition ctx_reply :: "outbound \<Rightarrow> 'w io \<Rightarrow> 'w io" where
  "ctx_reply m s = s\<lparr>outbox := outbox s @ [m]\<rparr>"

text \<open>
  \<^verbatim>\<open>if (reply.answer) { ctx.reply(`*${esc(element.unit)}:*\n${esc(reply.answer)}`, {parse_mode:
  "MarkdownV2"}) }\<close>: \<^verbatim>\<open>null\<close> and the empty string are falsy.
\<close>

definition send_answer :: "string \<Rightarrow> handler_result \<Rightarrow> 'w io \<Rightarrow> 'w io" where
  "send_answer owner reply s =
     (case answer reply of
        None \<Rightarrow> s
      | Some t \<Rightarrow> if t = [] then s else ctx_reply (MarkdownV2 (labelled_reply owner t)) s)"

text \<open>The effect of \<^verbatim>\<open>await element.handler(...)\<close> on the world, and its record in the log.\<close>

definition called :: "string \<Rightarrow> bool \<Rightarrow> (error + handler_result) \<times> 'w \<Rightarrow> 'w io \<Rightarrow> 'w io" where
  "called owner processed_before r s =
     s\<lparr>world := snd r,
       invoked := invoked s @ [\<lparr>callee = owner, flag_in = processed_before, returned = fst r\<rparr>]\<rparr>"

text \<open>
  The loop of the \<^verbatim>\<open>::bot_command\<close> handler,
  \<^verbatim>\<open>for (let i = 0; i < items.length; i++) { ... }\<close>, as recursion over the items. The result
  is \<^term>\<open>Inl e\<close> when a handler threw \<open>e\<close>, which leaves the loop.
\<close>

fun command_chain ::
  "'w command_handler entry list \<Rightarrow> bool \<Rightarrow> 'w io \<Rightarrow> (error + bool) \<times> 'w io" where
  "command_chain [] processed_before s = (Inr processed_before, s)"
| "command_chain (element # items) processed_before s =
     (let r = handler element processed_before (world s);
          s1 = called (unit element) processed_before r s in
      case fst r of
        Inl e \<Rightarrow> (Inl e, s1)
      | Inr reply \<Rightarrow>
          command_chain items (processed_before \<or> processed reply)
            (send_answer (unit element) reply s1))"

text \<open>The loop of the \<^verbatim>\<open>message:text\<close> handler.\<close>

fun text_chain ::
  "'w text_handler entry list \<Rightarrow> string option \<Rightarrow> bool \<Rightarrow> 'w io \<Rightarrow> (error + bool) \<times> 'w io" where
  "text_chain [] text processed_before s = (Inr processed_before, s)"
| "text_chain (element # items) text processed_before s =
     (let r = handler element text processed_before (world s);
          s1 = called (unit element) processed_before r s in
      case fst r of
        Inl e \<Rightarrow> (Inl e, s1)
      | Inr reply \<Rightarrow>
          text_chain items text (processed_before \<or> processed reply)
            (send_answer (unit element) reply s1))"

text \<open>
  The inner function \<^verbatim>\<open>handle(self, specific_handlers, obsidian_file, caption,
  processed_before)\<close> of the \<^verbatim>\<open>message:file\<close> handler; it returns the final flag.
\<close>

fun handle ::
  "('w, 'f) file_handler entry list \<Rightarrow> 'f \<Rightarrow> string option \<Rightarrow> bool \<Rightarrow> 'w io
     \<Rightarrow> (error + bool) \<times> 'w io" where
  "handle [] obsidian_file caption processed_before s = (Inr processed_before, s)"
| "handle (element # specific_handlers) obsidian_file caption processed_before s =
     (let r = handler element obsidian_file processed_before caption (world s);
          s1 = called (unit element) processed_before r s in
      case fst r of
        Inl e \<Rightarrow> (Inl e, s1)
      | Inr reply \<Rightarrow>
          handle specific_handlers obsidian_file caption (processed_before \<or> processed reply)
            (send_answer (unit element) reply s1))"

section \<open>File materializer\<close>

text \<open>
  The file object returned by \<^verbatim>\<open>ctx.getFile()\<close>: its optional \<^verbatim>\<open>file_path\<close> and whether
  \<^verbatim>\<open>typeof file.download === 'function'\<close>.
\<close>

record grammy_file =
  file_path :: "string option"
  has_download :: bool

definition isGrammyFile :: "grammy_file \<Rightarrow> bool" where
  "isGrammyFile file = has_download file"

text \<open>
  What the adapter reads from a grammY \<^verbatim>\<open>Context\<close>: \<^verbatim>\<open>String(ctx.chatId)\<close>,
  \<^verbatim>\<open>ctx.message?.text\<close>, \<^verbatim>\<open>ctx.msg\<close>, \<^verbatim>\<open>ctx.message?.caption\<close> and the call
  \<^verbatim>\<open>ctx.getFile()\<close>, which may fail.
\<close>

record 'w bot_context =
  chatId :: string
  message_text :: "string option"
  msg :: "message option"
  caption :: "string option"
  getFile :: "'w \<Rightarrow> (error + grammy_file) \<times> 'w"

text \<open>
  The libraries the file path calls, taken as parameters:
  \<^verbatim>\<open>moment().format('YYYY-MM-DD-HH-mm-ss-')\<close>, \<^verbatim>\<open>path.join\<close>, \<^verbatim>\<open>fs.existsSync\<close>,
  \<^verbatim>\<open>fs.mkdirSync(dir, {recursive: true})\<close> (\<^term>\<open>Some e\<close> when it throws),
  \<^verbatim>\<open>file.download(path)\<close> and \<^verbatim>\<open>app.vault.getFileByPath\<close> (\<^term>\<open>None\<close> for \<^verbatim>\<open>null\<close>).
\<close>

record ('w, 'f) collaborators =
  moment_format :: "'w \<Rightarrow> string"
  path_join :: "string list \<Rightarrow> string"
  existsSync :: "string \<Rightarrow> 'w \<Rightarrow> bool"
  mkdirSync :: "string \<Rightarrow> 'w \<Rightarrow> error option \<times> 'w"
  download :: "grammy_file \<Rightarrow> string \<Rightarrow> 'w \<Rightarrow> (error + string) \<times> 'w"
  getFileByPath :: "string \<Rightarrow> 'w \<Rightarrow> 'f option"

text \<open>
  \<^verbatim>\<open>moment().format('YYYY-MM-DD-HH-mm-ss-') + file.file_path?.replace(/\//g, '-')\<close>; string
  concatenation turns an \<^verbatim>\<open>undefined\<close> right operand into the text \<^verbatim>\<open>undefined\<close>.
\<close>

definition file_name_of :: "string \<Rightarrow> string option \<Rightarrow> string" where
  "file_name_of stamp remote =
     stamp @ (case remote of
                None \<Rightarrow> ''undefined''
              | Some p \<Rightarrow> replace_class [CHR ''/''] (\<lambda>m. ''-'') p)"

text \<open>\<^verbatim>\<open>download_path.slice(this._vault_path.length+1).replace(/\\/g,'/')\<close>.\<close>

definition path_in_vault_of :: "string \<Rightarrow> string \<Rightarrow> string" where
  "path_in_vault_of vault downloaded =
     replace_class [CHR 0x5C] (\<lambda>m. ''/'') (drop (length vault + 1) downloaded)"

text \<open>
  The statements of the \<^verbatim>\<open>message:file\<close> handler from \<^verbatim>\<open>await ctx.getFile()\<close> to the
  check of \<^verbatim>\<open>obsidian_file\<close>: the handle of the downloaded file, or what was thrown.
\<close>

definition materialize ::
  "('w, 'f) adapter \<Rightarrow> ('w, 'f) collaborators \<Rightarrow> 'w bot_context \<Rightarrow> 'w \<Rightarrow> (error + 'f) \<times> 'w" where
  "materialize a env ctx w =
     (case getFile ctx w of
        (Inl e, w1) \<Rightarrow> (Inl e, w1)
      | (Inr file, w1) \<Rightarrow>
          if \<not> isGrammyFile file then (Inl (TypeError ''type of file should be FileX''), w1)
          else
            let file_name = file_name_of (moment_format env w1) (file_path file);
                download_dir = path_join env [vault_path a, download_path a]
            in (case (if \<not> existsSync env download_dir w1 then mkdirSync env download_dir w1
                      else (None, w1)) of
                  (Some e, w2) \<Rightarrow> (Inl e, w2)
                | (None, w2) \<Rightarrow>
                    (case download env file
                            (path_join env [vault_path a, download_path a, file_name]) w2 of
                       (Inl e, w3) \<Rightarrow> (Inl e, w3)
                     | (Inr downloaded, w3) \<Rightarrow>
                         let path_in_vault = path_in_vault_of (vault_path a) downloaded
                         in (case getFileByPath env path_in_vault w3 of
                               None \<Rightarrow>
                                 (Inl (TypeError (''Couldn'' @ [CHR 0x27] @ ''t get file ''
                                    @ path_in_vault @ '' from vault'')), w3)
                             | Some obsidian_file \<Rightarrow> (Inr obsidian_file, w3)))))"

section \<open>Event handlers\<close>

text \<open>
  The text of the generic reply, with the bytes the literal has in \<^verbatim>\<open>main.ts\<close>.
\<close>

definition internal_error_text :: string where
  "internal_error_text = [CHR 0xC3, CHR 0xA2, CHR 0xC5, CHR 0x92] @ '' Internal error''"

text \<open>
  \<^verbatim>\<open>catch (error) { console.error(...); await ctx.reply(<internal error>); }\<close> around a
  \<^verbatim>\<open>try\<close> block whose outcome is \<open>r\<close>.
\<close>

definition catch_all :: "(error + 'a) \<times> 'w io \<Rightarrow> 'w io" where
  "catch_all r =
     (case fst r of
        Inl e \<Rightarrow> ctx_reply (PlainText internal_error_text) (snd r)
      | Inr v \<Rightarrow> snd r)"

text \<open>
  \<^verbatim>\<open>this._bot.on("::bot_command", ...)\<close>. \<^verbatim>\<open>cmd = ctx.message?.text?.slice(1)\<close>;
  \<^verbatim>\<open>!cmd\<close> holds for \<^verbatim>\<open>undefined\<close> and for the empty string; \<^verbatim>\<open>!items\<close> holds only for a
  missing key.
\<close>

definition on_bot_command :: "('w, 'f) adapter \<Rightarrow> 'w bot_context \<Rightarrow> 'w io \<Rightarrow> 'w io" where
  "on_bot_command a ctx s =
     (if chatId ctx \<noteq> chat_id a then s
      else case map_option (drop 1) (message_text ctx) of
        None \<Rightarrow> s
      | Some cmd \<Rightarrow>
          if cmd = [] then s
          else (case command_handlers a cmd of
                  None \<Rightarrow> s
                | Some items \<Rightarrow> catch_all (command_chain items False s)))"

text \<open>\<^verbatim>\<open>this._bot.on("message:text", ...)\<close>; the handlers get \<^verbatim>\<open>ctx.message?.text\<close>.\<close>

definition on_message_text :: "('w, 'f) adapter \<Rightarrow> 'w bot_context \<Rightarrow> 'w io \<Rightarrow> 'w io" where
  "on_message_text a ctx s =
     (if chatId ctx \<noteq> chat_id a then s
      else if length (text_handlers a) = 0 then s
      else catch_all (text_chain (text_handlers a) (message_text ctx) False s))"

text \<open>
  The part of the \<^verbatim>\<open>try\<close> block of the \<^verbatim>\<open>message:file\<close> handler after the two look-ups:
  materialize, then the specific chain, then the chain of the key \<^verbatim>\<open>''\<close>.
\<close>

definition file_dispatch ::
  "('w, 'f) adapter \<Rightarrow> ('w, 'f) collaborators \<Rightarrow> 'w bot_context
     \<Rightarrow> ('w, 'f) file_handler entry list option \<Rightarrow> ('w, 'f) file_handler entry list option
     \<Rightarrow> 'w io \<Rightarrow> (error + bool) \<times> 'w io" where
  "file_dispatch a env ctx specific_handlers all_files_handlers s =
     (case materialize a env ctx (world s) of
        (Inl e, w) \<Rightarrow> (Inl e, s\<lparr>world := w\<rparr>)
      | (Inr obsidian_file, w) \<Rightarrow>
          (case (case specific_handlers of
                   Some hs \<Rightarrow> handle hs obsidian_file (caption ctx) False (s\<lparr>world := w\<rparr>)
                 | None \<Rightarrow> (Inr False, s\<lparr>world := w\<rparr>)) of
             (Inl e, s1) \<Rightarrow> (Inl e, s1)
           | (Inr processed_before, s1) \<Rightarrow>
               (case all_files_handlers of
                  Some hs \<Rightarrow> handle hs obsidian_file (caption ctx) processed_before s1
                | None \<Rightarrow> (Inr processed_before, s1))))"

text \<open>
  \<^verbatim>\<open>this._bot.on("message:file", ...)\<close>; \<^verbatim>\<open>!mime_type\<close> holds for \<^verbatim>\<open>undefined\<close> and for
  the empty string.
\<close>

definition on_message_file ::
  "('w, 'f) adapter \<Rightarrow> ('w, 'f) collaborators \<Rightarrow> 'w bot_context \<Rightarrow> 'w io \<Rightarrow> 'w io" where
  "on_message_file a env ctx s =
     (if chatId ctx \<noteq> chat_id a then s
      else case msg ctx of
        None \<Rightarrow> s
      | Some m \<Rightarrow>
          (case getFileMimeType m of
             None \<Rightarrow> s
           | Some mime \<Rightarrow>
               if mime = [] then s
               else
                 let specific_handlers = file_handlers a mime;
                     all_files_handlers = file_handlers a []
                 in if specific_handlers = None \<and> all_files_handlers = None then s
                    else catch_all (file_dispatch a env ctx specific_handlers all_files_handlers s)))"

text \<open>
  The three listeners are installed on one bot. An update is given with the listener that
  grammY runs for it; none of the listeners calls \<^verbatim>\<open>next\<close>.
\<close>

datatype 'w update =
  BotCommand "'w bot_context" | MessageFile "'w bot_context" | MessageText "'w bot_context"

fun handle_update ::
  "('w, 'f) adapter \<Rightarrow> ('w, 'f) collaborators \<Rightarrow> 'w update \<Rightarrow> 'w io \<Rightarrow> 'w io" where
  "handle_update a env (BotCommand ctx) s = on_bot_command a ctx s"
| "handle_update a env (MessageFile ctx) s = on_message_file a env ctx s"
| "handle_update a env (MessageText ctx) s = on_message_text a ctx s"

section \<open>Observations on a run\<close>

text \<open>The invocations and the replies added between two states of one run.\<close>

definition calls_during :: "'w io \<Rightarrow> 'w io \<Rightarrow> call list" where
  "calls_during s s' = drop (length (invoked s)) (invoked s')"

definition replies_during :: "'w io \<Rightarrow> 'w io \<Rightarrow> outbound list" where
  "replies_during s s' = drop (length (outbox s)) (outbox s')"

text \<open>The invocation threw; the invocation returned \<^verbatim>\<open>processed = true\<close>.\<close>

definition raised :: "call \<Rightarrow> bool" where
  "raised c = (case returned c of Inl e \<Rightarrow> True | Inr r \<Rightarrow> False)"

definition claimed :: "call \<Rightarrow> bool" where
  "claimed c = (case returned c of Inl e \<Rightarrow> False | Inr r \<Rightarrow> processed r)"



text \<open>
  The replies owed to an invocation: one message labelled with the owner when the handler
  returned an answer that is neither \<^verbatim>\<open>null\<close> nor empty, none otherwise.
\<close>

definition reply_of :: "call \<Rightarrow> outbound list" where
  "reply_of c =
     (case returned c of
        Inl e \<Rightarrow> []
      | Inr r \<Rightarrow>
          (case answer r of
             None \<Rightarrow> []
           | Some t \<Rightarrow> if t = [] then [] else [MarkdownV2 (labelled_reply (callee c) t)]))"

text \<open>
  The log of a chain, invocation by invocation: the owners in the order of the chain, the
  flag threaded through, nothing after an invocation that threw, and the outcome \<open>res\<close> of
  the loop.
\<close>

fun follows :: "bool \<Rightarrow> string list \<Rightarrow> call list \<Rightarrow> error + bool \<Rightarrow> bool" where
  "follows b [] cs res = (cs = [] \<and> res = Inr b)"
| "follows b (u # us) [] res = False"
| "follows b (u # us) (c # cs) res =
     (callee c = u \<and> flag_in c = b \<and>
      (case returned c of
         Inl e \<Rightarrow> cs = [] \<and> res = Inl e
       | Inr r \<Rightarrow> follows (b \<or> processed r) us cs res))"

text \<open>The list registered under a key, empty when the key is absent.\<close>

definition chain_of :: "'a list option \<Rightarrow> 'a list" where
  "chain_of items = (case items of None \<Rightarrow> [] | Some hs \<Rightarrow> hs)"

text \<open>What a finished loop leaves behind, in terms of the observations.\<close>

definition chain_log :: "bool \<Rightarrow> string list \<Rightarrow> 'w io \<Rightarrow> (error + bool) \<times> 'w io \<Rightarrow> bool" where
  "chain_log b us s r =
     (invoked (snd r) = invoked s @ calls_during s (snd r)
      \<and> outbox (snd r) = outbox s @ concat (map reply_of (calls_during s (snd r)))
      \<and> replies_during s (snd r) = concat (map reply_of (calls_during s (snd r)))
      \<and> follows b us (calls_during s (snd r)) (fst r))"

text \<open>
  The log of a whole event whose \<^verbatim>\<open>try\<close> block got as far as the chains: only the last
  invocation can have thrown, and the generic reply closes the replies exactly then.
\<close>

definition settled :: "'w io \<Rightarrow> 'w io \<Rightarrow> bool" where
  "settled s s' =
     (invoked s' = invoked s @ calls_during s s'
      \<and> (\<forall>c \<in> set (butlast (calls_during s s')). \<not> raised c)
      \<and> outbox s' = outbox s @ concat (map reply_of (calls_during s s'))
           @ (if calls_during s s' \<noteq> [] \<and> raised (last (calls_during s s'))
              then [PlainText internal_error_text] else []))"

text \<open>
  Two runs that differ at most in what had been logged before they started: the same
  world afterwards, the same invocations, the same replies.
\<close>

definition same_run :: "'w io \<Rightarrow> 'w io \<Rightarrow> 'w io \<Rightarrow> 'w io \<Rightarrow> bool" where
  "same_run s s' t t' =
     (world s' = world t' \<and> calls_during s s' = calls_during t t'
      \<and> replies_during s s' = replies_during t t')"

section \<open>A small session used for the concrete instances\<close>

text \<open>
  The world is a counter of the side effects of the handlers. Four handlers in the style of
  the README: one that only comments, one that claims the event unless it was claimed
  before, one that claims it with an empty answer, and one that throws.
\<close>

definition note_handler :: "nat command_handler" where
  "note_handler processed_before w = (Inr \<lparr>processed = False, answer = Some ''noted''\<rparr>, Suc w)"

definition claim_handler :: "nat command_handler" where
  "claim_handler processed_before w =
     (if processed_before then (Inr \<lparr>processed = False, answer = None\<rparr>, w)
      else (Inr \<lparr>processed = True, answer = Some ''Done.''\<rparr>, Suc w))"

definition quiet_handler :: "nat command_handler" where
  "quiet_handler processed_before w = (Inr \<lparr>processed = True, answer = Some []\<rparr>, w)"

definition failing_handler :: "nat command_handler" where
  "failing_handler processed_before w = (Inl (HandlerFailure ''boom''), w)"

definition session0 :: "(nat, string) adapter" where
  "session0 = \<lparr>chat_id = ''42'', vault_path = ''/vault'', download_path = ''inbox'',
     command_handlers = Map.empty, text_handlers = [], file_handlers = Map.empty\<rparr>"

definition io0 :: "nat io" where
  "io0 = \<lparr>world = 0, outbox = [], invoked = []\<rparr>"

text \<open>
  \<^verbatim>\<open>path.join\<close> of Node on POSIX, for segments that are already normalized (no \<^verbatim>\<open>.\<close> or
  \<^verbatim>\<open>..\<close> parts, no separator at either end): empty segments are dropped, the others are
  joined by \<^verbatim>\<open>/\<close>, and the result of joining nothing is \<^verbatim>\<open>.\<close>.
\<close>

fun join_segments :: "string list \<Rightarrow> string" where
  "join_segments [] = ''.''"
| "join_segments [p] = p"
| "join_segments (p # q # ps) = p @ ''/'' @ join_segments (q # ps)"

text \<open>
  Collaborators of a POSIX vault in which the download directory exists, every download
  lands where it was requested and every file is indexed under its path.
\<close>

definition posix_env :: "(nat, string) collaborators" where
  "posix_env = \<lparr>moment_format = (\<lambda>w. ''2025-01-01-12-00-00-''),
     path_join = (\<lambda>parts. join_segments (filter (\<lambda>p. p \<noteq> []) parts)),
     existsSync = (\<lambda>dir w. True),
     mkdirSync = (\<lambda>dir w. (None, w)),
     download = (\<lambda>file dest w. (Inr dest, w)),
     getFileByPath = (\<lambda>p w. Some p)\<rparr>"

text \<open>An update from the authorized chat \<^verbatim>\<open>42\<close> with the given text, carrying a photo.\<close>

definition update_from :: "string \<Rightarrow> string option \<Rightarrow> string \<Rightarrow> nat bot_context" where
  "update_from chat t remote =
     \<lparr>chatId = chat, message_text = t,
      msg = Some \<lparr>document = None, animation = None, audio = None, photo = Some [90, 320],
                  video = None, voice = None, video_note = None\<rparr>,
      caption = None,
      getFile = (\<lambda>w. (Inr \<lparr>file_path = Some remote, has_download = True\<rparr>, w))\<rparr>"

text \<open>The same handlers registered for text and for files.\<close>

definition for_text :: "nat command_handler \<Rightarrow> nat text_handler" where
  "for_text h = (\<lambda>t. h)"

definition for_file :: "nat command_handler \<Rightarrow> (nat, string) file_handler" where
  "for_file h = (\<lambda>obsidian_file processed_before cap. h processed_before)"

text \<open>
  A session after six registrations: two command handlers for \<^verbatim>\<open>remind\<close>, one text
  handler, one handler for \<^verbatim>\<open>image/jpeg\<close> and two for any file.
\<close>

definition session6 :: "(nat, string) adapter" where
  "session6 =
     addFileHandler (for_file note_handler) ''files'' None
       (addFileHandler (for_file claim_handler) ''late'' (Some [])
         (addFileHandler (for_file claim_handler) ''pics'' (Some ''image/jpeg'')
           (addTextHandler (for_text note_handler) ''texts''
             (addCommandHandler ''remind'' claim_handler ''claims''
               (addCommandHandler ''remind'' note_handler ''my-notes'' session0)))))"

text \<open>A message without any payload.\<close>

definition bare_message :: message where
  "bare_message = \<lparr>document = None, animation = None, audio = None, photo = None,
     video = None, voice = None, video_note = None\<rparr>"

text \<open>A chain of three handlers, and the same chain for text and for files.\<close>

definition chain3 :: "nat command_handler entry list" where
  "chain3 = [\<lparr>handler = note_handler, unit = ''my-notes''\<rparr>,
             \<lparr>handler = claim_handler, unit = ''claims''\<rparr>,
             \<lparr>handler = claim_handler, unit = ''late''\<rparr>]"

definition text_chain3 :: "nat text_handler entry list" where
  "text_chain3 = map (\<lambda>e. \<lparr>handler = for_text (handler e), unit = unit e\<rparr>) chain3"

definition file_chain3 :: "(nat, string) file_handler entry list" where
  "file_chain3 = map (\<lambda>e. \<lparr>handler = for_file (handler e), unit = unit e\<rparr>) chain3"

text \<open>A session whose second handler for \<^verbatim>\<open>remind\<close> throws, and one with a quiet handler.\<close>

definition broken_session :: "(nat, string) adapter" where
  "broken_session =
     addTextHandler (for_text note_handler) ''texts''
       (addCommandHandler ''remind'' claim_handler ''claims''
         (addCommandHandler ''remind'' failing_handler ''broken''
           (addCommandHandler ''remind'' note_handler ''my-notes'' session0)))"

definition quiet_session :: "(nat, string) adapter" where
  "quiet_session = addCommandHandler ''ping'' quiet_handler ''quiet'' session0"


section \<open>Evaluation rules\<close>

lemmas engine_defs = on_bot_command_def on_message_text_def on_message_file_def
  file_dispatch_def materialize_def catch_all_def Let_def called_def send_answer_def ctx_reply_def
  addCommandHandler_def addTextHandler_def addFileHandler_def getFileMimeType_def isGrammyFile_def
  file_name_of_def path_in_vault_of_def calls_during_def replies_during_def

lemmas session_defs = session0_def session6_def io0_def update_from_def posix_env_def
  note_handler_def claim_handler_def quiet_handler_def failing_handler_def for_text_def
  for_file_def bare_message_def chain3_def text_chain3_def file_chain3_def broken_session_def
  quiet_session_def

section \<open>Reply formatter: escaping\<close>

lemma esc_class_set: "set esc_class = set ''_*[]()~'' \<union> {CHR 0x60} \<union> set ''>#+-=|{}.!''"
  by (auto simp: esc_class_def)

lemma replace_class_concat:
  "replace_class cls repl t = concat (map (\<lambda>c. if c \<in> set cls then repl c else [c]) t)"
  by (induction t) simp_all

lemma esc_refines: "esc t = esc_spec t"
  unfolding esc_def esc_spec_def replace_class_concat esc_class_set ..

text \<open>
  C4. For every owner label and every answer, the message handed to \<^verbatim>\<open>ctx.reply\<close> is
  \<^verbatim>\<open>*\<close>, the escaped owner, \<^verbatim>\<open>:*\<close>, a newline and the escaped answer, where escaping puts
  exactly one backslash before each character of the punctuation set and copies every other
  character; owner and answer are escaped separately.
\<close>

theorem reply_is_escaped_owner_and_answer:
  "labelled_reply owner t = ''*'' @ esc_spec owner @ '':*'' @ [CHR 0x0A] @ esc_spec t
   \<and> (t \<noteq> [] \<longrightarrow>
        outbox (send_answer owner \<lparr>processed = p, answer = Some t\<rparr> s)
          = outbox s @ [MarkdownV2 (''*'' @ esc_spec owner @ '':*'' @ [CHR 0x0A] @ esc_spec t)])"
  by (simp add: labelled_reply_def esc_refines send_answer_def ctx_reply_def)

theorem reply_is_escaped_owner_and_answer_witness:
  "''Done.'' \<noteq> [] \<and>
   outbox (send_answer ''my-plugin'' \<lparr>processed = True, answer = Some ''Done.''\<rparr> io0)
     = [MarkdownV2 (''*my'' @ [CHR 0x5C] @ ''-plugin:*'' @ [CHR 0x0A] @ ''Done'' @ [CHR 0x5C] @ ''.'')]"
  using reply_is_escaped_owner_and_answer [of "''my-plugin''" "''Done.''" True io0]
  by (simp add: esc_spec_def io0_def)

text \<open>
  The earlier copy of the adapter escapes the answer only: an owner such as \<^verbatim>\<open>my-plugin\<close>
  reaches the transport with its hyphen unescaped.
\<close>

lemma earlier_copy_leaves_owner_unescaped:
  "labelled_reply_earlier ''my-plugin'' ''ok'' = ''*my-plugin:*'' @ [CHR 0x0A] @ ''ok''
   \<and> labelled_reply ''my-plugin'' ''ok'' = ''*my'' @ [CHR 0x5C] @ ''-plugin:*'' @ [CHR 0x0A] @ ''ok''"
  by (simp add: labelled_reply_earlier_def labelled_reply_def esc_refines esc_spec_def)

section \<open>Authorization guard and command extraction\<close>

text \<open>
  C6. An event of any kind whose chat differs from the configured chat leaves everything as
  it was: no handler is invoked, no reply is sent, no collaborator is called.
\<close>

theorem unauthorized_is_silent:
  "chatId ctx \<noteq> chat_id a \<Longrightarrow>
     on_bot_command a ctx s = s \<and> on_message_file a env ctx s = s \<and> on_message_text a ctx s = s"
  by (simp add: on_bot_command_def on_message_file_def on_message_text_def)

theorem unauthorized_is_silent_witness:
  "chatId (update_from ''666'' (Some ''/remind'') ''photos/file_1.jpg'') \<noteq> chat_id session6
   \<and> on_bot_command session6 (update_from ''666'' (Some ''/remind'') ''photos/file_1.jpg'') io0
       = io0
   \<and> on_message_file session6 posix_env
        (update_from ''666'' (Some ''/remind'') ''photos/file_1.jpg'') io0 = io0
   \<and> on_message_text session6 (update_from ''666'' (Some ''/remind'') ''photos/file_1.jpg'') io0
       = io0
   \<and> map callee (invoked (on_bot_command session6
        (update_from ''42'' (Some ''/remind'') ''photos/file_1.jpg'') io0))
       = [''my-notes'', ''claims'']"
  using unauthorized_is_silent
    [of "update_from ''666'' (Some ''/remind'') ''photos/file_1.jpg''" session6 io0 posix_env]
  by (simp add: engine_defs session_defs)

text \<open>
  C10. A command event whose text is the marker alone yields the empty command name: the
  dispatcher invokes nothing and replies nothing, also when a chain is registered under the
  empty name, which \<^verbatim>\<open>addCommandHandler\<close> accepts.
\<close>

theorem bare_marker_dispatches_nothing:
  assumes "message_text ctx = Some [marker]"
  shows "on_bot_command a ctx s = s
       \<and> command_handlers (addCommandHandler [] h owner a) [] \<noteq> None
       \<and> on_bot_command (addCommandHandler [] h owner a) ctx s = s"
  using assms
  by (simp add: on_bot_command_def addCommandHandler_def Let_def split: option.splits)

theorem bare_marker_dispatches_nothing_witness:
  "message_text (update_from ''42'' (Some ''/'') ''x'') = Some ''/''
   \<and> chatId (update_from ''42'' (Some ''/'') ''x'') = chat_id session0
   \<and> command_handlers (addCommandHandler [] note_handler ''notes'' session0) [] \<noteq> None
   \<and> on_bot_command (addCommandHandler [] note_handler ''notes'' session0)
        (update_from ''42'' (Some ''/'') ''x'') io0 = io0"
  using bare_marker_dispatches_nothing
    [of "update_from ''42'' (Some ''/'') ''x''" "CHR ''/''" session0 io0 note_handler "''notes''"]
  by (simp add: update_from_def session0_def)

section \<open>MIME classifier\<close>

text \<open>
  C8. The classifier looks at the payload kinds in the order document, animation, audio,
  photo, video, voice, video note and answers for the first one present: the MIME string of
  the provider (possibly absent) for document, animation, audio, video and voice,
  \<^verbatim>\<open>image/jpeg\<close> for a photo, \<^verbatim>\<open>video/mp4\<close> for a video note, and nothing when no kind is
  present. It is a function of the message alone.
\<close>

theorem mime_classifier_priority:
  "(document m = Some d \<longrightarrow> getFileMimeType m = mime_type d)
   \<and> (document m = None \<and> animation m = Some an \<longrightarrow> getFileMimeType m = mime_type an)
   \<and> (document m = None \<and> animation m = None \<and> audio m = Some au
        \<longrightarrow> getFileMimeType m = mime_type au)
   \<and> (document m = None \<and> animation m = None \<and> audio m = None \<and> photo m = Some ph
        \<longrightarrow> getFileMimeType m = Some ''image/jpeg'')
   \<and> (document m = None \<and> animation m = None \<and> audio m = None \<and> photo m = None
        \<and> video m = Some vi \<longrightarrow> getFileMimeType m = mime_type vi)
   \<and> (document m = None \<and> animation m = None \<and> audio m = None \<and> photo m = None
        \<and> video m = None \<and> voice m = Some vo \<longrightarrow> getFileMimeType m = mime_type vo)
   \<and> (document m = None \<and> animation m = None \<and> audio m = None \<and> photo m = None
        \<and> video m = None \<and> voice m = None \<and> video_note m = Some vn
        \<longrightarrow> getFileMimeType m = Some ''video/mp4'')
   \<and> (document m = None \<and> animation m = None \<and> audio m = None \<and> photo m = None
        \<and> video m = None \<and> voice m = None \<and> video_note m = None
        \<longrightarrow> getFileMimeType m = None)"
  by (simp add: getFileMimeType_def)

theorem mime_classifier_priority_witness:
  "getFileMimeType (bare_message\<lparr>document := Some \<lparr>mime_type = Some ''application/pdf''\<rparr>,
       animation := Some \<lparr>mime_type = Some ''video/mp4''\<rparr>\<rparr>) = Some ''application/pdf''
   \<and> getFileMimeType (bare_message\<lparr>animation := Some \<lparr>mime_type = Some ''image/gif''\<rparr>,
       photo := Some [90]\<rparr>) = Some ''image/gif''
   \<and> getFileMimeType (bare_message\<lparr>audio := Some \<lparr>mime_type = None\<rparr>,
       video_note := Some 5\<rparr>) = None
   \<and> getFileMimeType (bare_message\<lparr>photo := Some [], video := Some \<lparr>mime_type = None\<rparr>\<rparr>)
       = Some ''image/jpeg''
   \<and> getFileMimeType (bare_message\<lparr>video := Some \<lparr>mime_type = Some ''video/webm''\<rparr>,
       voice := Some \<lparr>mime_type = Some ''audio/ogg''\<rparr>\<rparr>) = Some ''video/webm''
   \<and> getFileMimeType (bare_message\<lparr>voice := Some \<lparr>mime_type = Some ''audio/ogg''\<rparr>,
       video_note := Some 5\<rparr>) = Some ''audio/ogg''
   \<and> getFileMimeType (bare_message\<lparr>video_note := Some 5\<rparr>) = Some ''video/mp4''
   \<and> getFileMimeType bare_message = None"
  using
    mime_classifier_priority [of "bare_message\<lparr>document := Some \<lparr>mime_type = Some ''application/pdf''\<rparr>,
       animation := Some \<lparr>mime_type = Some ''video/mp4''\<rparr>\<rparr>" "\<lparr>mime_type = Some ''application/pdf''\<rparr>"]
    mime_classifier_priority [of "bare_message\<lparr>animation := Some \<lparr>mime_type = Some ''image/gif''\<rparr>,
       photo := Some [90]\<rparr>" _ "\<lparr>mime_type = Some ''image/gif''\<rparr>"]
    mime_classifier_priority [of "bare_message\<lparr>audio := Some \<lparr>mime_type = None\<rparr>,
       video_note := Some 5\<rparr>" _ _ "\<lparr>mime_type = None\<rparr>"]
    mime_classifier_priority [of "bare_message\<lparr>photo := Some [], video := Some \<lparr>mime_type = None\<rparr>\<rparr>"
       _ _ _ "[]"]
    mime_classifier_priority [of "bare_message\<lparr>video := Some \<lparr>mime_type = Some ''video/webm''\<rparr>,
       voice := Some \<lparr>mime_type = Some ''audio/ogg''\<rparr>\<rparr>" _ _ _ _ "\<lparr>mime_type = Some ''video/webm''\<rparr>"]
    mime_classifier_priority [of "bare_message\<lparr>voice := Some \<lparr>mime_type = Some ''audio/ogg''\<rparr>,
       video_note := Some 5\<rparr>" _ _ _ _ _ "\<lparr>mime_type = Some ''audio/ogg''\<rparr>"]
    mime_classifier_priority [of "bare_message\<lparr>video_note := Some 5\<rparr>" _ _ _ _ _ _ 5]
    mime_classifier_priority [of bare_message]
  by (simp add: bare_message_def)

section \<open>The log of a chain\<close>

lemma command_chain_follows:
  "command_chain items b s = (res, s') \<Longrightarrow>
     \<exists>cs. invoked s' = invoked s @ cs \<and> outbox s' = outbox s @ concat (map reply_of cs)
          \<and> follows b (map unit items) cs res"
proof (induction items arbitrary: b s)
  case Nil
  then show ?case by auto
next
  case (Cons element items)
  let ?r = "handler element b (world s)"
  let ?c = "\<lparr>callee = unit element, flag_in = b, returned = fst ?r\<rparr>"
  let ?s1 = "called (unit element) b ?r s"
  show ?case
  proof (cases "fst ?r")
    case (Inl e)
    with Cons.prems have "res = Inl e" "s' = ?s1" by (simp_all add: Let_def)
    then have "invoked s' = invoked s @ [?c] \<and> outbox s' = outbox s @ concat (map reply_of [?c])
                \<and> follows b (map unit (element # items)) [?c] res"
      using Inl by (simp add: called_def reply_of_def)
    then show ?thesis by blast
  next
    case (Inr reply)
    let ?s2 = "send_answer (unit element) reply ?s1"
    from Cons.prems Inr have "command_chain items (b \<or> processed reply) ?s2 = (res, s')"
      by (simp add: Let_def)
    from Cons.IH[OF this] obtain cs where cs: "invoked s' = invoked ?s2 @ cs"
       "outbox s' = outbox ?s2 @ concat (map reply_of cs)"
       "follows (b \<or> processed reply) (map unit items) cs res" by blast
    have i2: "invoked ?s2 = invoked s @ [?c]"
      by (simp add: send_answer_def called_def ctx_reply_def split: option.splits)
    have o2: "outbox ?s2 = outbox s @ reply_of ?c"
      using Inr by (simp add: send_answer_def called_def ctx_reply_def reply_of_def split: option.splits)
    have "invoked s' = invoked s @ (?c # cs) \<and> outbox s' = outbox s @ concat (map reply_of (?c # cs))
                \<and> follows b (map unit (element # items)) (?c # cs) res"
      using cs i2 o2 Inr by simp
    then show ?thesis by blast
  qed
qed

lemma text_chain_command:
  "text_chain items t b s =
     command_chain (map (\<lambda>e. \<lparr>handler = handler e t, unit = unit e\<rparr>) items) b s"
  by (induction items arbitrary: b s) (simp_all add: Let_def split: sum.splits)

lemma handle_command:
  "handle items f cap b s =
     command_chain (map (\<lambda>e. \<lparr>handler = (\<lambda>pb. handler e f pb cap), unit = unit e\<rparr>) items) b s"
  by (induction items arbitrary: b s) (simp_all add: Let_def split: sum.splits)


lemma follows_completed: "follows b us cs (Inr b') \<Longrightarrow>
   map callee cs = us \<and> (\<forall>c \<in> set cs. \<not> raised c) \<and> b' = (b \<or> (\<exists>c \<in> set cs. claimed c))"
  by (induction b us cs "Inr b' :: error + bool" rule: follows.induct) 
     (auto simp: raised_def claimed_def split: sum.splits)

lemma follows_aborted: "follows b us cs (Inl e) \<Longrightarrow>
   cs \<noteq> [] \<and> returned (last cs) = Inl e \<and> (\<forall>c \<in> set (butlast cs). \<not> raised c)"
  by (induction b us cs "Inl e :: error + bool" rule: follows.induct) 
     (auto simp: raised_def claimed_def split: sum.splits)




lemma text_chain_follows:
  assumes "text_chain items t b s = (res, s')"
  shows "\<exists>cs. invoked s' = invoked s @ cs \<and> outbox s' = outbox s @ concat (map reply_of cs)
          \<and> follows b (map unit items) cs res"
  using command_chain_follows [OF assms [unfolded text_chain_command]]
  by (simp add: comp_def)

lemma handle_follows:
  assumes "handle items f cap b s = (res, s')"
  shows "\<exists>cs. invoked s' = invoked s @ cs \<and> outbox s' = outbox s @ concat (map reply_of cs)
          \<and> follows b (map unit items) cs res"
  using command_chain_follows [OF assms [unfolded handle_command]]
  by (simp add: comp_def)

lemma calls_during_append: "invoked s' = invoked s @ cs \<Longrightarrow> calls_during s s' = cs"
  by (simp add: calls_during_def)

lemma replies_during_append: "outbox s' = outbox s @ rs \<Longrightarrow> replies_during s s' = rs"
  by (simp add: replies_during_def)

lemma chain_logI:
  assumes "\<exists>cs. invoked s' = invoked s @ cs \<and> outbox s' = outbox s @ concat (map reply_of cs)
          \<and> follows b us cs res"
  shows "chain_log b us s (res, s')"
proof -
  from assms obtain cs where cs: "invoked s' = invoked s @ cs"
     "outbox s' = outbox s @ concat (map reply_of cs)" "follows b us cs res" by blast
  have "calls_during s s' = cs" using cs(1) by (rule calls_during_append)
  moreover have "replies_during s s' = concat (map reply_of cs)"
    using cs(2) by (rule replies_during_append)
  ultimately show ?thesis using cs by (simp add: chain_log_def)
qed

lemma command_chain_log: "chain_log b (map unit items) s (command_chain items b s)"
proof -
  obtain res s' where r: "command_chain items b s = (res, s')"
    by (cases "command_chain items b s")
  show ?thesis unfolding r by (rule chain_logI) (rule command_chain_follows [OF r])
qed

lemma text_chain_log: "chain_log b (map unit items) s (text_chain items t b s)"
proof -
  obtain res s' where r: "text_chain items t b s = (res, s')"
    by (cases "text_chain items t b s")
  show ?thesis unfolding r by (rule chain_logI) (rule text_chain_follows [OF r])
qed

lemma handle_log: "chain_log b (map unit items) s (handle items f cap b s)"
proof -
  obtain res s' where r: "handle items f cap b s = (res, s')"
    by (cases "handle items f cap b s")
  show ?thesis unfolding r by (rule chain_logI) (rule handle_follows [OF r])
qed



text \<open>
  C5, as amended. In each of the three loops the replies sent are exactly, in order, one
  labelled message for every invocation that returned an answer which is neither
  \<^verbatim>\<open>null\<close> nor the empty string; an invocation that returned \<^verbatim>\<open>null\<close> or the empty string,
  or that threw, contributes none.
\<close>

theorem one_reply_per_answer:
  "replies_during s (snd (command_chain items start s))
     = concat (map reply_of (calls_during s (snd (command_chain items start s))))
   \<and> replies_during s (snd (text_chain titems t start s))
     = concat (map reply_of (calls_during s (snd (text_chain titems t start s))))
   \<and> replies_during s (snd (handle fitems f cap start s))
     = concat (map reply_of (calls_during s (snd (handle fitems f cap start s))))"
  using command_chain_log [of start items s] text_chain_log [of start titems s t]
    handle_log [of start fitems s f cap]
  by (simp add: chain_log_def)

theorem one_reply_per_answer_witness:
  "replies_during io0 (snd (command_chain chain3 False io0))
     = [MarkdownV2 (''*my'' @ [CHR 0x5C] @ ''-notes:*'' @ [CHR 0x0A] @ ''noted''),
        MarkdownV2 (''*claims:*'' @ [CHR 0x0A] @ ''Done'' @ [CHR 0x5C] @ ''.'')]
   \<and> map reply_of (calls_during io0 (snd (command_chain chain3 False io0)))
     = [[MarkdownV2 (''*my'' @ [CHR 0x5C] @ ''-notes:*'' @ [CHR 0x0A] @ ''noted'')],
        [MarkdownV2 (''*claims:*'' @ [CHR 0x0A] @ ''Done'' @ [CHR 0x5C] @ ''.'')], []]"
  using one_reply_per_answer [of io0 chain3 False]
  by (simp add: engine_defs session_defs reply_of_def labelled_reply_def esc_refines esc_spec_def)

text \<open>
  C5 as it was stated fails for an answer that is not \<^verbatim>\<open>null\<close> but empty: the handler of
  \<^verbatim>\<open>ping\<close> is invoked and returns the empty string, and no reply is sent.
\<close>

theorem empty_answer_counterexample:
  "invoked (on_bot_command quiet_session (update_from ''42'' (Some ''/ping'') ''x'') io0)
     = [\<lparr>callee = ''quiet'', flag_in = False,
         returned = Inr \<lparr>processed = True, answer = Some ''''\<rparr>\<rparr>]
   \<and> outbox (on_bot_command quiet_session (update_from ''42'' (Some ''/ping'') ''x'') io0) = []"
  by (simp add: engine_defs session_defs)




section \<open>The log of an event\<close>

lemma handle_append:
  "handle (xs @ ys) f cap b s =
     (case handle xs f cap b s of
        (Inl e, s1) \<Rightarrow> (Inl e, s1)
      | (Inr b1, s1) \<Rightarrow> handle ys f cap b1 s1)"
  by (induction xs arbitrary: b s) (simp_all add: Let_def split: sum.splits)

lemma file_dispatch_handle:
  assumes "materialize a env ctx (world s) = (Inr f, w)"
  shows "file_dispatch a env ctx sp wl s
           = handle (chain_of sp @ chain_of wl) f (caption ctx) False (s\<lparr>world := w\<rparr>)"
  using assms
  by (simp add: file_dispatch_def handle_append chain_of_def split: option.splits prod.splits sum.splits)

lemma settled_refl: "settled s s"
  by (simp add: settled_def calls_during_def)

lemma chain_log_settled:
  assumes "chain_log b us s r"
  shows "settled s (catch_all r)"
proof -
  let ?cs = "calls_during s (snd r)"
  from assms have inv: "invoked (snd r) = invoked s @ ?cs"
    and out: "outbox (snd r) = outbox s @ concat (map reply_of ?cs)"
    and fol: "follows b us ?cs (fst r)" by (simp_all add: chain_log_def)
  show ?thesis
  proof (cases "fst r")
    case (Inl e)
    from follows_aborted [OF fol [unfolded Inl]]
    have ne: "?cs \<noteq> []" and la: "raised (last ?cs)" and bl: "\<forall>c \<in> set (butlast ?cs). \<not> raised c"
      by (simp_all add: raised_def)
    have i: "invoked (catch_all r) = invoked s @ ?cs"
      using Inl inv by (simp add: catch_all_def ctx_reply_def)
    then have cd: "calls_during s (catch_all r) = ?cs" by (rule calls_during_append)
    have "outbox (catch_all r) = outbox s @ concat (map reply_of ?cs) @ [PlainText internal_error_text]"
      using Inl out by (simp add: catch_all_def ctx_reply_def)
    then show ?thesis using i ne la bl unfolding settled_def cd by simp
  next
    case (Inr b')
    from follows_completed [OF fol [unfolded Inr]]
    have nr: "\<forall>c \<in> set ?cs. \<not> raised c" by simp
    have ca: "catch_all r = snd r" using Inr by (simp add: catch_all_def)
    have bl: "\<forall>c \<in> set (butlast ?cs). \<not> raised c" using nr by (meson in_set_butlastD)
    have "\<not> (?cs \<noteq> [] \<and> raised (last ?cs))" using nr by auto
    then show ?thesis using inv out bl unfolding settled_def ca by simp
  qed
qed

lemma on_bot_command_settled: "settled s (on_bot_command a ctx s)"
  by (auto simp: on_bot_command_def settled_refl split: option.splits
           intro: chain_log_settled command_chain_log)

lemma on_message_text_settled: "settled s (on_message_text a ctx s)"
  by (auto simp: on_message_text_def settled_refl intro: chain_log_settled text_chain_log)

lemma chain_log_world:
  "chain_log b us (s\<lparr>world := w\<rparr>) r \<Longrightarrow> chain_log b us s r"
  by (simp add: chain_log_def calls_during_def replies_during_def)

lemma on_message_file_settled:
  "settled s (on_message_file a env ctx s)
   \<or> (\<exists>e w. materialize a env ctx (world s) = (Inl e, w)
          \<and> on_message_file a env ctx s = ctx_reply (PlainText internal_error_text) (s\<lparr>world := w\<rparr>))"
proof -
  obtain res w where m: "materialize a env ctx (world s) = (res, w)"
    by (cases "materialize a env ctx (world s)")
  show ?thesis
  proof (cases res)
    case (Inl e)
    then show ?thesis using m
      by (auto simp: on_message_file_def settled_refl Let_def file_dispatch_def catch_all_def
               split: option.splits)
  next
    case (Inr f)
    have "settled s (catch_all (file_dispatch a env ctx sp wl s))" for sp wl
      unfolding file_dispatch_handle [OF m [unfolded Inr]]
      by (rule chain_log_settled) (rule chain_log_world, rule handle_log)
    then show ?thesis
      by (auto simp: on_message_file_def settled_refl Let_def split: option.splits)
  qed
qed

lemma during_step:
  assumes "chain_log b us s2 r" and "invoked s2 = invoked s @ cs0" and "outbox s2 = outbox s @ rs0"
  shows "calls_during s (snd r) = cs0 @ calls_during s2 (snd r)
       \<and> replies_during s (snd r) = rs0 @ replies_during s2 (snd r)"
proof -
  from assms(1) have i: "invoked (snd r) = invoked s2 @ calls_during s2 (snd r)"
    and o: "outbox (snd r) = outbox s2 @ concat (map reply_of (calls_during s2 (snd r)))"
    and ro: "replies_during s2 (snd r) = concat (map reply_of (calls_during s2 (snd r)))"
    by (simp_all only: chain_log_def)
  have "invoked (snd r) = invoked s @ (cs0 @ calls_during s2 (snd r))"
    using i assms(2) by simp
  then have c: "calls_during s (snd r) = cs0 @ calls_during s2 (snd r)"
    by (rule calls_during_append)
  have "outbox (snd r) = outbox s @ (rs0 @ replies_during s2 (snd r))"
    using o ro assms(3) by simp
  then have "replies_during s (snd r) = rs0 @ replies_during s2 (snd r)"
    by (rule replies_during_append)
  with c show ?thesis by simp
qed

lemma command_chain_frame:
  assumes "world s = world t"
  shows "fst (command_chain items b s) = fst (command_chain items b t)
       \<and> same_run s (snd (command_chain items b s)) t (snd (command_chain items b t))"
  using assms
proof (induction items arbitrary: b s t)
  case Nil
  then show ?case by (simp add: same_run_def calls_during_def replies_during_def)
next
  case (Cons element items)
  let ?r = "handler element b (world s)"
  let ?c = "\<lparr>callee = unit element, flag_in = b, returned = fst ?r\<rparr>"
  have rt: "handler element b (world t) = ?r" using Cons.prems by simp
  show ?case
  proof (cases "fst ?r")
    case (Inl e)
    then show ?thesis using rt
      by (simp add: Let_def same_run_def called_def calls_during_def replies_during_def)
  next
    case (Inr reply)
    let ?s2 = "send_answer (unit element) reply (called (unit element) b ?r s)"
    let ?t2 = "send_answer (unit element) reply (called (unit element) b ?r t)"
    let ?b2 = "b \<or> processed reply"
    have w: "world ?s2 = world ?t2"
      by (simp add: send_answer_def called_def ctx_reply_def split: option.splits)
    have es: "command_chain (element # items) b s = command_chain items ?b2 ?s2"
      using Inr by (simp add: Let_def)
    have et: "command_chain (element # items) b t = command_chain items ?b2 ?t2"
      using Inr rt by (simp add: Let_def)
    have is2: "invoked ?s2 = invoked s @ [?c]" and it2: "invoked ?t2 = invoked t @ [?c]"
      by (simp_all add: send_answer_def called_def ctx_reply_def split: option.splits)
    have os2: "outbox ?s2 = outbox s @ reply_of ?c" and ot2: "outbox ?t2 = outbox t @ reply_of ?c"
      using Inr
      by (simp_all add: send_answer_def called_def ctx_reply_def reply_of_def split: option.splits)
    have ds: "calls_during s (snd (command_chain items ?b2 ?s2))
                = [?c] @ calls_during ?s2 (snd (command_chain items ?b2 ?s2))
              \<and> replies_during s (snd (command_chain items ?b2 ?s2))
                = reply_of ?c @ replies_during ?s2 (snd (command_chain items ?b2 ?s2))"
      by (rule during_step [OF command_chain_log is2 os2])
    have dt: "calls_during t (snd (command_chain items ?b2 ?t2))
                = [?c] @ calls_during ?t2 (snd (command_chain items ?b2 ?t2))
              \<and> replies_during t (snd (command_chain items ?b2 ?t2))
                = reply_of ?c @ replies_during ?t2 (snd (command_chain items ?b2 ?t2))"
      by (rule during_step [OF command_chain_log it2 ot2])
    have ih: "fst (command_chain items ?b2 ?s2) = fst (command_chain items ?b2 ?t2)
       \<and> same_run ?s2 (snd (command_chain items ?b2 ?s2)) ?t2 (snd (command_chain items ?b2 ?t2))"
      by (rule Cons.IH [OF w])
    show ?thesis unfolding es et using ds dt ih unfolding same_run_def by simp
  qed
qed

lemma catch_all_frame:
  assumes "chain_log b us s r" and "chain_log b' us' t r'"
      and "fst r = fst r'" and "same_run s (snd r) t (snd r')"
  shows "same_run s (catch_all r) t (catch_all r')"
proof (cases "fst r")
  case (Inl e)
  let ?m = "PlainText internal_error_text"
  from assms(1) have "outbox (snd r) = outbox s @ concat (map reply_of (calls_during s (snd r)))"
    and rr: "replies_during s (snd r) = concat (map reply_of (calls_during s (snd r)))"
    by (simp_all only: chain_log_def)
  then have "outbox (ctx_reply ?m (snd r)) = outbox s @ (replies_during s (snd r) @ [?m])"
    by (simp add: ctx_reply_def)
  then have 1: "replies_during s (ctx_reply ?m (snd r)) = replies_during s (snd r) @ [?m]"
    by (rule replies_during_append)
  from assms(2) have "outbox (snd r') = outbox t @ concat (map reply_of (calls_during t (snd r')))"
    and rr': "replies_during t (snd r') = concat (map reply_of (calls_during t (snd r')))"
    by (simp_all only: chain_log_def)
  then have "outbox (ctx_reply ?m (snd r')) = outbox t @ (replies_during t (snd r') @ [?m])"
    by (simp add: ctx_reply_def)
  then have 2: "replies_during t (ctx_reply ?m (snd r')) = replies_during t (snd r') @ [?m]"
    by (rule replies_during_append)
  have 3: "calls_during s (ctx_reply ?m (snd r)) = calls_during s (snd r)"
     "calls_during t (ctx_reply ?m (snd r')) = calls_during t (snd r')"
     "world (ctx_reply ?m (snd r)) = world (snd r)"
     "world (ctx_reply ?m (snd r')) = world (snd r')"
    by (simp_all add: calls_during_def ctx_reply_def)
  have "catch_all r = ctx_reply ?m (snd r)" "catch_all r' = ctx_reply ?m (snd r')"
    using Inl assms(3) by (simp_all add: catch_all_def)
  then show ?thesis using assms(4) 1 2 3 unfolding same_run_def by simp
next
  case (Inr v)
  then show ?thesis using assms(3,4) by (simp add: catch_all_def)
qed

lemma same_run_refl: "world s = world t \<Longrightarrow> same_run s s t t"
  by (simp add: same_run_def calls_during_def replies_during_def)

lemma on_bot_command_frame:
  assumes "world s = world t"
  shows "same_run s (on_bot_command a ctx s) t (on_bot_command a ctx t)"
proof -
  have "same_run s (catch_all (command_chain items False s))
                 t (catch_all (command_chain items False t))" for items
    using command_chain_frame [OF assms, of items False]
    by (intro catch_all_frame [OF command_chain_log command_chain_log]) simp_all
  then show ?thesis using assms
    by (simp add: on_bot_command_def same_run_refl split: option.splits)
qed

lemma on_message_text_frame:
  assumes "world s = world t"
  shows "same_run s (on_message_text a ctx s) t (on_message_text a ctx t)"
proof -
  have "same_run s (catch_all (text_chain items x False s))
                 t (catch_all (text_chain items x False t))" for items x
    unfolding text_chain_command
    using command_chain_frame [OF assms, of _ False]
    by (intro catch_all_frame [OF command_chain_log command_chain_log]) simp_all
  then show ?thesis using assms
    by (simp add: on_message_text_def same_run_refl)
qed

lemma same_run_world:
  "same_run (s\<lparr>world := w\<rparr>) s' (t\<lparr>world := w'\<rparr>) t' = same_run s s' t t'"
  by (simp add: same_run_def calls_during_def replies_during_def)

lemma on_message_file_frame:
  assumes "world s = world t"
  shows "same_run s (on_message_file a env ctx s) t (on_message_file a env ctx t)"
proof -
  obtain res w where m: "materialize a env ctx (world s) = (res, w)"
    by (cases "materialize a env ctx (world s)")
  then have mt: "materialize a env ctx (world t) = (res, w)" using assms by simp
  have "same_run s (catch_all (file_dispatch a env ctx sp wl s))
                 t (catch_all (file_dispatch a env ctx sp wl t))" for sp wl
  proof (cases res)
    case (Inl e)
    then show ?thesis using m mt
      by (simp add: file_dispatch_def catch_all_def ctx_reply_def same_run_def
            calls_during_def replies_during_def)
  next
    case (Inr f)
    have w: "world (s\<lparr>world := w\<rparr>) = world (t\<lparr>world := w\<rparr>)" by simp
    have "same_run (s\<lparr>world := w\<rparr>) (catch_all (command_chain items False (s\<lparr>world := w\<rparr>)))
                   (t\<lparr>world := w\<rparr>) (catch_all (command_chain items False (t\<lparr>world := w\<rparr>)))"
      for items :: "'a command_handler entry list"
      using command_chain_frame [OF w, of items False]
      by (intro catch_all_frame [OF command_chain_log command_chain_log]) simp_all
    then show ?thesis
      unfolding file_dispatch_handle [OF m [unfolded Inr]] file_dispatch_handle [OF mt [unfolded Inr]]
        handle_command
      by (simp add: same_run_world)
  qed
  then show ?thesis using assms
    by (simp add: on_message_file_def same_run_refl Let_def split: option.splits)
qed

lemma handle_update_frame:
  "world s = world t \<Longrightarrow> same_run s (handle_update a env e s) t (handle_update a env e t)"
  by (cases e) (simp_all add: on_bot_command_frame on_message_file_frame on_message_text_frame)

lemma handle_update_settled:
  "settled s (handle_update a env e s)
   \<or> (\<exists>ctx err w. e = MessageFile ctx \<and> materialize a env ctx (world s) = (Inl err, w)
          \<and> handle_update a env e s = ctx_reply (PlainText internal_error_text) (s\<lparr>world := w\<rparr>))"
  using on_message_file_settled
  by (cases e) (simp_all add: on_bot_command_settled on_message_text_settled)

lemma reply_of_markdown: "PlainText x \<notin> set (concat (map reply_of cs))"
  by (induction cs) (auto simp: reply_of_def split: sum.splits option.splits)

lemma settled_thrown:
  assumes "settled s s'" and "\<exists>c \<in> set (calls_during s s'). raised c"
  shows "calls_during s s' \<noteq> [] \<and> raised (last (calls_during s s'))
       \<and> replies_during s s'
           = concat (map reply_of (calls_during s s')) @ [PlainText internal_error_text]"
proof -
  let ?cs = "calls_during s s'"
  from assms(2) obtain c where c: "c \<in> set ?cs" "raised c" by blast
  then have ne: "?cs \<noteq> []" by auto
  from assms(1) have bl: "\<forall>c \<in> set (butlast ?cs). \<not> raised c" unfolding settled_def by blast
  have "c = last ?cs"
  proof (rule ccontr)
    assume "c \<noteq> last ?cs"
    with c(1) ne have "c \<in> set (butlast ?cs)"
      by (metis append_butlast_last_id in_set_conv_decomp_last butlast_snoc
            Un_iff insert_iff list.simps(15) set_append empty_set empty_iff)
    with bl c(2) show False by blast
  qed
  with c(2) have la: "raised (last ?cs)" by simp
  from assms(1) ne la have
    "outbox s' = outbox s @ (concat (map reply_of ?cs) @ [PlainText internal_error_text])"
    by (simp only: settled_def) simp
  then have "replies_during s s' = concat (map reply_of ?cs) @ [PlainText internal_error_text]"
    by (rule replies_during_append)
  with ne la show ?thesis by simp
qed

lemma settled_error_reply:
  assumes "settled s s'" and "PlainText internal_error_text \<in> set (replies_during s s')"
  shows "\<exists>c \<in> set (calls_during s s'). raised c"
proof (rule ccontr)
  let ?cs = "calls_during s s'"
  assume n: "\<not> (\<exists>c \<in> set ?cs. raised c)"
  then have "\<not> (?cs \<noteq> [] \<and> raised (last ?cs))" by auto
  with assms(1) have "outbox s' = outbox s @ concat (map reply_of ?cs)"
    by (simp only: settled_def) simp
  then have "replies_during s s' = concat (map reply_of ?cs)" by (rule replies_during_append)
  with assms(2) show False using reply_of_markdown by metis
qed

text \<open>
  C7. When a handler throws while an update is processed, the replies of that update are
  the answers of the handlers that returned before, followed by exactly one generic
  internal-error message; the invocation that threw is the last one made. The adapter is
  only read, and the next update is processed as if the failed one had left nothing but the
  handlers' own effects on the world: the same invocations and replies result, and it gets
  the generic message only if one of its own handlers throws or its own file cannot be
  materialized.
\<close>

theorem handler_failure_is_contained:
  assumes "s1 = handle_update a env e s" and "cs = calls_during s s1"
      and "\<exists>c \<in> set cs. raised c"
  shows "replies_during s s1 = concat (map reply_of cs) @ [PlainText internal_error_text]
       \<and> length (filter (\<lambda>m. m = PlainText internal_error_text) (replies_during s s1)) = 1
       \<and> raised (last cs) \<and> (\<forall>c \<in> set (butlast cs). \<not> raised c)
       \<and> (\<forall>e2 t. world t = world s1 \<longrightarrow>
             same_run s1 (handle_update a env e2 s1) t (handle_update a env e2 t))
       \<and> (\<forall>e2. PlainText internal_error_text \<in> set (replies_during s1 (handle_update a env e2 s1))
             \<longrightarrow> (\<exists>c \<in> set (calls_during s1 (handle_update a env e2 s1)). raised c)
                 \<or> (\<exists>ctx. e2 = MessageFile ctx \<and> isl (fst (materialize a env ctx (world s1)))))"
proof -
  have st: "settled s s1"
  proof -
    from handle_update_settled [of s a env e] show ?thesis
    proof
      assume "settled s (handle_update a env e s)" then show ?thesis by (simp add: assms(1))
    next
      assume "\<exists>ctx err w. e = MessageFile ctx \<and> materialize a env ctx (world s) = (Inl err, w)
          \<and> handle_update a env e s = ctx_reply (PlainText internal_error_text) (s\<lparr>world := w\<rparr>)"
      then have "cs = []" by (auto simp: assms(1,2) calls_during_def ctx_reply_def)
      with assms(3) show ?thesis by simp
    qed
  qed
  from settled_thrown [OF st] assms(2,3)
  have la: "raised (last cs)"
    and rd: "replies_during s s1 = concat (map reply_of cs) @ [PlainText internal_error_text]"
    by simp_all
  have "filter (\<lambda>m. m = PlainText internal_error_text) (concat (map reply_of cs)) = []"
    using reply_of_markdown [of internal_error_text cs] by (auto simp: filter_empty_conv)
  then have one: "length (filter (\<lambda>m. m = PlainText internal_error_text) (replies_during s s1)) = 1"
    by (simp add: rd)
  have bl: "\<forall>c \<in> set (butlast cs). \<not> raised c" using st assms(2) unfolding settled_def by blast
  have fr: "\<forall>e2 t. world t = world s1 \<longrightarrow>
             same_run s1 (handle_update a env e2 s1) t (handle_update a env e2 t)"
    by (simp add: handle_update_frame)
  have nx: "(\<exists>c \<in> set (calls_during s1 (handle_update a env e2 s1)). raised c)
              \<or> (\<exists>ctx. e2 = MessageFile ctx \<and> isl (fst (materialize a env ctx (world s1))))"
    if "PlainText internal_error_text \<in> set (replies_during s1 (handle_update a env e2 s1))" for e2
    using handle_update_settled [of s1 a env e2]
  proof
    assume "settled s1 (handle_update a env e2 s1)"
    from settled_error_reply [OF this that] show ?thesis by simp
  next
    assume "\<exists>ctx err w. e2 = MessageFile ctx \<and> materialize a env ctx (world s1) = (Inl err, w)
          \<and> handle_update a env e2 s1 = ctx_reply (PlainText internal_error_text) (s1\<lparr>world := w\<rparr>)"
    then show ?thesis by auto
  qed
  show ?thesis using rd one la bl fr nx by blast
qed

theorem handler_failure_is_contained_witness:
  "map callee (calls_during io0
       (handle_update broken_session posix_env
          (BotCommand (update_from ''42'' (Some ''/remind'') ''x'')) io0))
     = [''my-notes'', ''broken'']
   \<and> map raised (calls_during io0
       (handle_update broken_session posix_env
          (BotCommand (update_from ''42'' (Some ''/remind'') ''x'')) io0)) = [False, True]
   \<and> replies_during io0
       (handle_update broken_session posix_env
          (BotCommand (update_from ''42'' (Some ''/remind'') ''x'')) io0)
     = [MarkdownV2 (''*my'' @ [CHR 0x5C] @ ''-notes:*'' @ [CHR 0x0A] @ ''noted''),
        PlainText internal_error_text]
   \<and> replies_during
       (handle_update broken_session posix_env
          (BotCommand (update_from ''42'' (Some ''/remind'') ''x'')) io0)
       (handle_update broken_session posix_env (MessageText (update_from ''42'' (Some ''hello'') ''x''))
         (handle_update broken_session posix_env
            (BotCommand (update_from ''42'' (Some ''/remind'') ''x'')) io0))
     = [MarkdownV2 (''*texts:*'' @ [CHR 0x0A] @ ''noted'')]"
  using handler_failure_is_contained
     [of "handle_update broken_session posix_env
            (BotCommand (update_from ''42'' (Some ''/remind'') ''x'')) io0"
         broken_session posix_env "BotCommand (update_from ''42'' (Some ''/remind'') ''x'')" io0
         "calls_during io0 (handle_update broken_session posix_env
            (BotCommand (update_from ''42'' (Some ''/remind'') ''x'')) io0)"]
  by (simp add: engine_defs session_defs raised_def reply_of_def labelled_reply_def esc_refines
        esc_spec_def)

section \<open>File dispatch\<close>












section \<open>File names\<close>

lemma replace_class_append:
  "replace_class cls repl (x @ y) = replace_class cls repl x @ replace_class cls repl y"
  by (induction x) simp_all

lemma flattened_has_no_slash: "CHR ''/'' \<notin> set (replace_class [CHR ''/''] (\<lambda>m. ''-'') p)"
  by (induction p) simp_all

lemma backslash_fix_injective:
  "CHR ''/'' \<notin> set x \<Longrightarrow> CHR ''/'' \<notin> set y
   \<Longrightarrow> replace_class [CHR 0x5C] (\<lambda>m. ''/'') x = replace_class [CHR 0x5C] (\<lambda>m. ''/'') y
   \<Longrightarrow> x = y"
proof (induction x arbitrary: y)
  case Nil
  then show ?case by (cases y) (simp_all split: if_splits)
next
  case (Cons c x)
  then show ?case by (cases y) (auto split: if_splits)
qed

lemma file_name_eq_iff:
  "(file_name_of stamp (Some p) = file_name_of stamp (Some q))
     = (replace_class [CHR ''/''] (\<lambda>m. ''-'') p = replace_class [CHR ''/''] (\<lambda>m. ''-'') q)"
  by (simp add: file_name_of_def)

lemma materialize_InrD:
  assumes "materialize a env ctx w = (Inr h, v)"
  shows "\<exists>file w1 w2 dl w3. getFile ctx w = (Inr file, w1)
     \<and> download env file (path_join env [vault_path a, download_path a,
          file_name_of (moment_format env w1) (file_path file)]) w2 = (Inr dl, w3)
     \<and> getFileByPath env (path_in_vault_of (vault_path a) dl) w3 = Some h"
  using assms
  by (auto simp: materialize_def Let_def split: prod.splits sum.splits option.splits if_splits)

lemma vault_paths_differ:
  assumes "replace_class [CHR ''/''] (\<lambda>m. ''-'') p \<noteq> replace_class [CHR ''/''] (\<lambda>m. ''-'') q"
  shows "path_in_vault_of v (v @ sep # dir @ file_name_of stamp (Some p))
       \<noteq> path_in_vault_of v (v @ sep # dir @ file_name_of stamp (Some q))"
proof
  let ?flat = "replace_class [CHR ''/''] (\<lambda>m. ''-'')"
  let ?fix = "replace_class [CHR 0x5C] (\<lambda>m. ''/'')"
  assume "path_in_vault_of v (v @ sep # dir @ file_name_of stamp (Some p))
       = path_in_vault_of v (v @ sep # dir @ file_name_of stamp (Some q))"
  then have "?fix (dir @ stamp @ ?flat p) = ?fix (dir @ stamp @ ?flat q)"
    by (simp add: path_in_vault_of_def file_name_of_def)
  then have "?fix (?flat p) = ?fix (?flat q)"
    by (simp add: replace_class_append)
  then have "?flat p = ?flat q"
    by (rule backslash_fix_injective [OF flattened_has_no_slash flattened_has_no_slash])
  with assms show False by simp
qed

text \<open>
  C9, as amended. Two file events in the same second whose remote paths are still different
  after every \<^verbatim>\<open>/\<close> has been replaced by \<^verbatim>\<open>-\<close> get different local file names; and when
  \<^verbatim>\<open>path.join\<close> puts each of the two generated file names behind the vault path, a
  separator and one directory prefix (empty when no download directory is configured),
  downloads land where requested and the index hands out one handle per path, the two
  resolved handles are different.
\<close>

theorem distinct_flattened_paths_distinct_files:
  assumes flat: "replace_class [CHR ''/''] (\<lambda>m. ''-'') p \<noteq> replace_class [CHR ''/''] (\<lambda>m. ''-'') q"
      and g1: "getFile ctx1 w1 = (Inr file1, v1)" "file_path file1 = Some p"
      and g2: "getFile ctx2 w2 = (Inr file2, v2)" "file_path file2 = Some q"
      and same_second: "moment_format env v1 = stamp" "moment_format env v2 = stamp"
      and join: "path_join env [vault_path a, download_path a, file_name_of stamp (Some p)]
                    = vault_path a @ sep # dir @ file_name_of stamp (Some p)"
                "path_join env [vault_path a, download_path a, file_name_of stamp (Some q)]
                    = vault_path a @ sep # dir @ file_name_of stamp (Some q)"
      and stored: "\<forall>file dest w res w'. download env file dest w = (Inr res, w') \<longrightarrow> res = dest"
      and index: "\<forall>x y w w' h. getFileByPath env x w = Some h \<and> getFileByPath env y w' = Some h
                    \<longrightarrow> x = y"
      and m1: "materialize a env ctx1 w1 = (Inr h1, u1)"
      and m2: "materialize a env ctx2 w2 = (Inr h2, u2)"
  shows "file_name_of stamp (Some p) \<noteq> file_name_of stamp (Some q) \<and> h1 \<noteq> h2"
proof -
  have names: "file_name_of stamp (Some p) \<noteq> file_name_of stamp (Some q)"
    using flat by (simp add: file_name_eq_iff)
  from materialize_InrD [OF m1] g1 same_second(1) join(1) stored
  obtain w3 where l1: "getFileByPath env (path_in_vault_of (vault_path a)
       (vault_path a @ sep # dir @ file_name_of stamp (Some p))) w3 = Some h1"
    by (metis Pair_inject sum.inject(2))
  from materialize_InrD [OF m2] g2 same_second(2) join(2) stored
  obtain w3' where l2: "getFileByPath env (path_in_vault_of (vault_path a)
       (vault_path a @ sep # dir @ file_name_of stamp (Some q))) w3' = Some h2"
    by (metis Pair_inject sum.inject(2))
  have "h1 \<noteq> h2"
  proof
    assume "h1 = h2"
    with l1 l2 index have "path_in_vault_of (vault_path a)
         (vault_path a @ sep # dir @ file_name_of stamp (Some p))
       = path_in_vault_of (vault_path a)
         (vault_path a @ sep # dir @ file_name_of stamp (Some q))" by blast
    with vault_paths_differ [OF flat] show False by blast
  qed
  with names show ?thesis by simp
qed

theorem distinct_flattened_paths_distinct_files_witness:
  "replace_class [CHR ''/''] (\<lambda>m. ''-'') ''photos/file_1.jpg''
     \<noteq> replace_class [CHR ''/''] (\<lambda>m. ''-'') ''photos/file_2.jpg''
   \<and> materialize session0 posix_env (update_from ''42'' None ''photos/file_1.jpg'') 0
       = (Inr ''inbox/2025-01-01-12-00-00-photos-file_1.jpg'', 0)
   \<and> materialize session0 posix_env (update_from ''42'' None ''photos/file_2.jpg'') 0
       = (Inr ''inbox/2025-01-01-12-00-00-photos-file_2.jpg'', 0)
   \<and> file_name_of ''2025-01-01-12-00-00-'' (Some ''photos/file_1.jpg'')
       \<noteq> file_name_of ''2025-01-01-12-00-00-'' (Some ''photos/file_2.jpg'')
   \<and> ''inbox/2025-01-01-12-00-00-photos-file_1.jpg''
       \<noteq> ''inbox/2025-01-01-12-00-00-photos-file_2.jpg''
   \<and> materialize (session0\<lparr>download_path := []\<rparr>) posix_env
         (update_from ''42'' None ''photos/file_1.jpg'') 0
       = (Inr ''2025-01-01-12-00-00-photos-file_1.jpg'', 0)
   \<and> materialize (session0\<lparr>download_path := []\<rparr>) posix_env
         (update_from ''42'' None ''photos/file_2.jpg'') 0
       = (Inr ''2025-01-01-12-00-00-photos-file_2.jpg'', 0)
   \<and> ''2025-01-01-12-00-00-photos-file_1.jpg'' \<noteq> ''2025-01-01-12-00-00-photos-file_2.jpg''"
proof -
  let ?f1 = "\<lparr>file_path = Some ''photos/file_1.jpg'', has_download = True\<rparr>"
  let ?f2 = "\<lparr>file_path = Some ''photos/file_2.jpg'', has_download = True\<rparr>"
  let ?stamp = "''2025-01-01-12-00-00-''"
  let ?root = "session0\<lparr>download_path := []\<rparr>"
  have flat: "replace_class [CHR ''/''] (\<lambda>m. ''-'') ''photos/file_1.jpg''
     \<noteq> replace_class [CHR ''/''] (\<lambda>m. ''-'') ''photos/file_2.jpg''"
    by simp
  have g1: "getFile (update_from ''42'' None ''photos/file_1.jpg'') 0 = (Inr ?f1, 0)"
    and g2: "getFile (update_from ''42'' None ''photos/file_2.jpg'') 0 = (Inr ?f2, 0)"
    by (simp_all add: update_from_def)
  have p1: "file_path ?f1 = Some ''photos/file_1.jpg''"
    and p2: "file_path ?f2 = Some ''photos/file_2.jpg''"
    by simp_all
  have st: "moment_format posix_env 0 = ?stamp"
    by (simp add: posix_env_def)
  have j1: "path_join posix_env [vault_path session0, download_path session0,
                file_name_of ?stamp (Some ''photos/file_1.jpg'')]
              = vault_path session0 @ CHR ''/'' # ''inbox/'' @ file_name_of ?stamp (Some ''photos/file_1.jpg'')"
    and j2: "path_join posix_env [vault_path session0, download_path session0,
                file_name_of ?stamp (Some ''photos/file_2.jpg'')]
              = vault_path session0 @ CHR ''/'' # ''inbox/'' @ file_name_of ?stamp (Some ''photos/file_2.jpg'')"
    by (simp_all add: posix_env_def session0_def file_name_of_def)
  have k1: "path_join posix_env [vault_path ?root, download_path ?root,
                file_name_of ?stamp (Some ''photos/file_1.jpg'')]
              = vault_path ?root @ CHR ''/'' # [] @ file_name_of ?stamp (Some ''photos/file_1.jpg'')"
    and k2: "path_join posix_env [vault_path ?root, download_path ?root,
                file_name_of ?stamp (Some ''photos/file_2.jpg'')]
              = vault_path ?root @ CHR ''/'' # [] @ file_name_of ?stamp (Some ''photos/file_2.jpg'')"
    by (simp_all add: posix_env_def session0_def file_name_of_def)
  have stored: "\<forall>file dest w res w'. download posix_env file dest w = (Inr res, w') \<longrightarrow> res = dest"
    by (simp add: posix_env_def)
  have index: "\<forall>x y w w' h. getFileByPath posix_env x w = Some h
                  \<and> getFileByPath posix_env y w' = Some h \<longrightarrow> x = y"
    by (simp add: posix_env_def)
  have m1: "materialize session0 posix_env (update_from ''42'' None ''photos/file_1.jpg'') 0
       = (Inr ''inbox/2025-01-01-12-00-00-photos-file_1.jpg'', 0)"
    by (simp add: engine_defs session_defs)
  have m2: "materialize session0 posix_env (update_from ''42'' None ''photos/file_2.jpg'') 0
       = (Inr ''inbox/2025-01-01-12-00-00-photos-file_2.jpg'', 0)"
    by (simp add: engine_defs session_defs)
  have n1: "materialize ?root posix_env (update_from ''42'' None ''photos/file_1.jpg'') 0
       = (Inr ''2025-01-01-12-00-00-photos-file_1.jpg'', 0)"
    by (simp add: engine_defs session_defs)
  have n2: "materialize ?root posix_env (update_from ''42'' None ''photos/file_2.jpg'') 0
       = (Inr ''2025-01-01-12-00-00-photos-file_2.jpg'', 0)"
    by (simp add: engine_defs session_defs)
  from distinct_flattened_paths_distinct_files
         [OF flat g1 p1 g2 p2 st st j1 j2 stored index m1 m2]
       distinct_flattened_paths_distinct_files
         [OF flat g1 p1 g2 p2 st st k1 k2 stored index n1 n2]
  show ?thesis using flat m1 m2 n1 n2 by blast
qed

text \<open>
  C9 as it was stated fails: the remote paths \<^verbatim>\<open>photos/file-1.jpg\<close> and
  \<^verbatim>\<open>photos-file-1.jpg\<close> differ, yet in the same second they get the same local file name
  and resolve to the same handle.
\<close>

theorem flattened_paths_collide_counterexample:
  "''photos/file-1.jpg'' \<noteq> ''photos-file-1.jpg''
   \<and> file_name_of ''2025-01-01-12-00-00-'' (Some ''photos/file-1.jpg'')
       = file_name_of ''2025-01-01-12-00-00-'' (Some ''photos-file-1.jpg'')
   \<and> fst (materialize session0 posix_env (update_from ''42'' None ''photos/file-1.jpg'') 0)
       = Inr ''inbox/2025-01-01-12-00-00-photos-file-1.jpg''
   \<and> fst (materialize session0 posix_env (update_from ''42'' None ''photos-file-1.jpg'') 0)
       = Inr ''inbox/2025-01-01-12-00-00-photos-file-1.jpg''"
  by (simp add: engine_defs session_defs)

end
